theory Spec2Isabelle
  imports Main
begin

section \<open>The upgrade feature of the server bootstrap\<close>

text \<open>
  A shallow embedding of \<^verbatim>\<open>arangod/RestServer/UpgradeFeature.cpp\<close> and of the
  transaction context declared in \<^verbatim>\<open>arangod/Transaction/V8Context.h\<close>.

  The feature talks to collaborators whose code is elsewhere (the logger, the write-ahead
  log manager, the V8 dealer, the application server, the upgrade script). Every call to
  one of them is recorded as an event, in program order, in the trace of the world; what a
  collaborator answers is a parameter of the model. \<^verbatim>\<open>FATAL_ERROR_EXIT()\<close> ends the
  process: the run is \<open>Exited\<close> in the world reached at that point, and nothing after it
  happens (in particular no destructor of a stack object runs).
\<close>

subsection \<open>Data\<close>

text \<open>\<^verbatim>\<open>TRI_vocbase_t\<close>: only its \<^verbatim>\<open>_name\<close> is read here.\<close>

record vocbase =
  vocbase_name :: string

text \<open>Values held by the global object of the script context.\<close>

datatype jsvalue =
    JSBoolean bool
  | JSObject "(string \<times> jsvalue) list"
  | JSOther

type_synonym globals = "string \<rightharpoonup> jsvalue"

datatype level = TRACE | DEBUG | INFO | FATAL

datatype event =
    Log level string
  | WalOpen bool
  | DisableFeatures "string list"
  | DisableReplicationApplier
  | EnableUpgrade
  | ClusterDisable
  | EnterContext vocbase bool nat
  | LocalEnter
  | ScopeEnter
  | ScopeExit
  | LocalExit
  | ExitContext
  | UpgradeDatabase vocbase bool
  | WriteResult int
  | BeginShutdown

text \<open>
  The world: the trace of calls made so far, the \<^verbatim>\<open>int\<close> that \<^verbatim>\<open>_result\<close> points to,
  and the global object of the script context the dealer hands out.
\<close>

record world =
  trace :: "event list"
  result :: int
  globals :: globals

datatype run = Returned world | Exited world

fun world_of :: "run \<Rightarrow> world" where
  "world_of (Returned w) = w"
| "world_of (Exited w) = w"

text \<open>The members of \<^verbatim>\<open>UpgradeFeature\<close> (the target of \<^verbatim>\<open>_result\<close> lives in the world).\<close>

record UpgradeFeature =
  upgrade :: bool
  upgradeCheck :: bool
  nonServerFeatures :: "string list"

text \<open>
  What the collaborators answer: whether \<^verbatim>\<open>LogfileManager::open()\<close> succeeds, the system
  database, the snapshot \<^verbatim>\<open>theLists->_databases\<close> in its iteration order (name and
  database), and \<^verbatim>\<open>TRI_UpgradeDatabase\<close>, which runs the script on a database inside the
  context, may change the context's global object, and returns \<^verbatim>\<open>ok\<close>.
\<close>

record env =
  wal_open :: bool
  systemVocbase :: vocbase
  databases :: "(string \<times> vocbase) list"
  TRI_UpgradeDatabase :: "vocbase \<Rightarrow> globals \<Rightarrow> bool \<times> globals"

definition EXIT_SUCCESS :: int where
  "EXIT_SUCCESS = 0"

definition emit :: "event \<Rightarrow> world \<Rightarrow> world" where
  "emit e w = w\<lparr>trace := trace w @ [e]\<rparr>"

subsection \<open>Messages\<close>

definition msg_conflict :: string where
  "msg_conflict = ''cannot specify both '' @ [CHR 0x27] @ ''--database.upgrade true'' @ [CHR 0x27]
     @ '' and '' @ [CHR 0x27] @ ''--database.upgrade-check false'' @ [CHR 0x27]"

definition msg_wal :: string where
  "msg_wal = ''Unable to finish WAL recovery procedure''"

definition msg_upgrade_failed :: "string \<Rightarrow> string" where
  "msg_upgrade_failed n = ''Database '' @ [CHR 0x27] @ n @ [CHR 0x27]
     @ '' upgrade failed. Please inspect the logs from the upgrade procedure''"

definition msg_needs_upgrade :: "string \<Rightarrow> string" where
  "msg_needs_upgrade n = ''Database '' @ [CHR 0x27] @ n @ [CHR 0x27]
     @ '' needs upgrade. Please start the server with the --upgrade option''"

definition msg_js_error :: string where
  "msg_js_error = ''JavaScript error during server start''"

subsection \<open>validateOptions\<close>

definition validateOptions :: "UpgradeFeature \<Rightarrow> world \<Rightarrow> run" where
  "validateOptions f w =
     (let w1 = emit (Log TRACE ''Upgrade::validateOptions'') w in
      if upgrade f \<and> \<not> upgradeCheck f then Exited (emit (Log FATAL msg_conflict) w1)
      else if \<not> upgrade f then
        Returned (emit (Log TRACE ''executing upgrade check: not disabling server features'') w1)
      else
        Returned
          (emit ClusterDisable
            (emit EnableUpgrade
              (emit DisableReplicationApplier
                (emit (DisableFeatures (nonServerFeatures f))
                  (emit (Log TRACE ''executing upgrade procedure: disabling server features'')
                     w1))))))"

subsection \<open>upgradeDatabase\<close>

definition set_upgrade_args :: "bool \<Rightarrow> globals \<Rightarrow> globals" where
  "set_upgrade_args u g = g(''UPGRADE_ARGS'' \<mapsto> JSObject [(''upgrade'', JSBoolean u)])"

text \<open>
  The loop over the snapshot. For each entry the arguments are stored in the global
  \<^verbatim>\<open>UPGRADE_ARGS\<close>, the script is run, and a failure ends the process: after leaving the
  local context when the global \<^verbatim>\<open>UPGRADE_STARTED\<close> exists, at once otherwise. (The debug
  line "init/upgrade done" sits inside the failure branch, after the exits, and is never
  reached.)
\<close>

fun sweep ::
  "UpgradeFeature \<Rightarrow> (vocbase \<Rightarrow> globals \<Rightarrow> bool \<times> globals) \<Rightarrow> (string \<times> vocbase) list
     \<Rightarrow> world \<Rightarrow> run" where
  "sweep f script [] w = Returned w"
| "sweep f script (p # ps) w =
     (let vb = snd p;
          r = script vb (set_upgrade_args (upgrade f) (globals w));
          ok = fst r;
          w1 = emit (UpgradeDatabase vb ok) (w\<lparr>globals := snd r\<rparr>)
      in if \<not> ok then
           (if globals w1 ''UPGRADE_STARTED'' \<noteq> None then
              (let w2 = emit LocalExit w1 in
               if upgrade f then Exited (emit (Log FATAL (msg_upgrade_failed (vocbase_name vb))) w2)
               else Exited (emit (Log FATAL (msg_needs_upgrade (vocbase_name vb))) w2))
            else Exited (emit (Log FATAL msg_js_error) w1))
         else sweep f script ps w1)"

definition upgradeDatabase :: "UpgradeFeature \<Rightarrow> env \<Rightarrow> world \<Rightarrow> run" where
  "upgradeDatabase f e w =
     (let w1 = emit (Log TRACE ''starting database init/upgrade'') w;
          w2 = emit (EnterContext (systemVocbase e) True 0) w1;
          w3 = emit LocalEnter w2;
          w4 = emit ScopeEnter w3;
          w5 = emit (Log DEBUG ''running database init/upgrade'') w4
      in case sweep f (TRI_UpgradeDatabase e) (databases e) w5 of
           Exited w' \<Rightarrow> Exited w'
         | Returned w6 \<Rightarrow>
             (let w7 = emit ScopeExit w6;
                  w8 = emit LocalExit w7;
                  w9 = emit ExitContext w8;
                  w10 = (if upgrade f
                         then emit (Log INFO ''database upgrade passed'')
                                (emit (WriteResult EXIT_SUCCESS) (w9\<lparr>result := EXIT_SUCCESS\<rparr>))
                         else w9)
              in Returned (emit (Log TRACE ''finished database init/upgrade'') w10)))"

subsection \<open>start\<close>

definition start :: "UpgradeFeature \<Rightarrow> env \<Rightarrow> world \<Rightarrow> run" where
  "start f e w =
     (let w1 = emit (Log TRACE ''Upgrade::start'') w;
          w2 = emit (WalOpen (wal_open e)) w1
      in if \<not> wal_open e then Exited (emit (Log FATAL msg_wal) w2)
         else
           (case (if upgradeCheck f then upgradeDatabase f e w2 else Returned w2) of
              Exited w' \<Rightarrow> Exited w'
            | Returned w3 \<Rightarrow> Returned (if upgrade f then emit BeginShutdown w3 else w3)))"

subsection \<open>The order of the phases\<close>

text \<open>
  Modelled from the spec: the application server that drives the phases of a feature is not
  among the sources. The spec has the configuration conflict "validated once at startup,
  fatal before any database is touched" and "rejected at validation time, before the
  write-ahead log is opened": \<open>validateOptions\<close> runs first, and \<open>start\<close> runs only in a
  process that is still alive.
\<close>

definition bootstrap :: "UpgradeFeature \<Rightarrow> env \<Rightarrow> world \<Rightarrow> run" where
  "bootstrap f e w =
     (case validateOptions f w of
        Exited w' \<Rightarrow> Exited w'
      | Returned w1 \<Rightarrow> start f e w1)"

subsection \<open>Reading a run\<close>

text \<open>The events a run added to the trace it started from.\<close>

definition events_of :: "world \<Rightarrow> run \<Rightarrow> event list" where
  "events_of w r = drop (length (trace w)) (trace (world_of r))"

text \<open>The databases the script was run on, in the order of the calls.\<close>

fun invoked :: "event list \<Rightarrow> vocbase list" where
  "invoked [] = []"
| "invoked (UpgradeDatabase vb ok # es) = vb # invoked es"
| "invoked (e # es) = invoked es"

text \<open>What one failing pass of the loop adds to the trace.\<close>

definition fatal_events :: "UpgradeFeature \<Rightarrow> vocbase \<Rightarrow> bool \<Rightarrow> event list" where
  "fatal_events f vb started =
     UpgradeDatabase vb False
       # (if started
          then [LocalExit, Log FATAL (if upgrade f then msg_upgrade_failed (vocbase_name vb)
                                      else msg_needs_upgrade (vocbase_name vb))]
          else [Log FATAL msg_js_error])"

text \<open>The events around the loop, and the world in which the loop starts.\<close>

definition enter_events :: "env \<Rightarrow> event list" where
  "enter_events e =
     [Log TRACE ''starting database init/upgrade'', EnterContext (systemVocbase e) True 0,
      LocalEnter, ScopeEnter, Log DEBUG ''running database init/upgrade'']"

definition leave_events :: "UpgradeFeature \<Rightarrow> event list" where
  "leave_events f =
     [ScopeExit, LocalExit, ExitContext]
       @ (if upgrade f then [WriteResult EXIT_SUCCESS, Log INFO ''database upgrade passed''] else [])
       @ [Log TRACE ''finished database init/upgrade'']"

definition start_events :: "env \<Rightarrow> event list" where
  "start_events e = [Log TRACE ''Upgrade::start'', WalOpen (wal_open e)]"

definition entered :: "env \<Rightarrow> world \<Rightarrow> world" where
  "entered e w = w\<lparr>trace := trace w @ enter_events e\<rparr>"

subsection \<open>The transaction context\<close>

text \<open>
  \<^verbatim>\<open>V8Context.h\<close> declares the context: the current transaction (a reference, not owned)
  and the embeddable flag, besides two links to other contexts that no operation below
  reads. A \<^verbatim>\<open>TransactionState*\<close> is a reference, here a number; the null pointer is
  \<open>None\<close>.
\<close>

type_synonym TransactionState = nat

record V8Context =
  currentTransaction :: "TransactionState option"
  embeddable :: bool

datatype context_error = ContextState

text \<open>
  Modelled from the spec: the bodies of the member functions (\<^verbatim>\<open>V8Context.cpp\<close>) are not
  among the sources. The spec has for \<open>registerTransaction\<close> the precondition "no
  transaction currently registered", the effect "currentTransaction = txn" and the failure
  "signals a ContextState error (transaction already registered)". A member function works
  on the object in place, so the model returns the context as it is after the call together
  with the outcome.
\<close>

definition registerTransaction ::
  "TransactionState \<Rightarrow> V8Context \<Rightarrow> (context_error + unit) \<times> V8Context" where
  "registerTransaction trx c =
     (if currentTransaction c \<noteq> None then (Inl ContextState, c)
      else (Inr (), c\<lparr>currentTransaction := Some trx\<rparr>))"

text \<open>
  Modelled from the spec: "returns the currently registered transaction without taking
  ownership".
\<close>

definition getParentTransaction :: "V8Context \<Rightarrow> TransactionState option" where
  "getParentTransaction c = currentTransaction c"

subsection \<open>Sample inputs\<close>

definition sample_feature :: "bool \<Rightarrow> bool \<Rightarrow> UpgradeFeature" where
  "sample_feature u c = \<lparr>upgrade = u, upgradeCheck = c, nonServerFeatures = [''Scheduler'']\<rparr>"

definition db :: "string \<Rightarrow> vocbase" where
  "db n = \<lparr>vocbase_name = n\<rparr>"

definition script_succeeds :: "vocbase \<Rightarrow> globals \<Rightarrow> bool \<times> globals" where
  "script_succeeds vb g = (True, g(''UPGRADE_STARTED'' \<mapsto> JSBoolean True))"

definition script_fails_started :: "vocbase \<Rightarrow> globals \<Rightarrow> bool \<times> globals" where
  "script_fails_started vb g = (False, g(''UPGRADE_STARTED'' \<mapsto> JSBoolean True))"

definition script_fails_unstarted :: "vocbase \<Rightarrow> globals \<Rightarrow> bool \<times> globals" where
  "script_fails_unstarted vb g = (False, g)"

definition sample_env ::
  "bool \<Rightarrow> string list \<Rightarrow> (vocbase \<Rightarrow> globals \<Rightarrow> bool \<times> globals) \<Rightarrow> env" where
  "sample_env wal names script =
     \<lparr>wal_open = wal, systemVocbase = db ''_system'',
      databases = map (\<lambda>n. (n, db n)) names, TRI_UpgradeDatabase = script\<rparr>"

definition world0 :: world where
  "world0 = \<lparr>trace = [], result = 1, globals = Map.empty\<rparr>"

section \<open>Properties\<close>

subsection \<open>Auxiliary facts about the loop\<close>

lemma sweep_Returned:
  "sweep f s ps w = Returned w' \<Longrightarrow>
     trace w' = trace w @ map (\<lambda>p. UpgradeDatabase (snd p) True) ps \<and> result w' = result w"
proof (induction ps arbitrary: w)
  case Nil
  then show ?case by simp
next
  case (Cons p ps)
  let ?r = "s (snd p) (set_upgrade_args (upgrade f) (globals w))"
  let ?w1 = "emit (UpgradeDatabase (snd p) (fst ?r)) (w\<lparr>globals := snd ?r\<rparr>)"
  from Cons.prems have ok: "fst ?r" and rest: "sweep f s ps ?w1 = Returned w'"
    by (auto simp: Let_def split: if_splits)
  from Cons.IH [OF rest] ok show ?case by (simp add: emit_def)
qed

lemma sweep_fail_step:
  assumes "\<not> fst (s (snd p) (set_upgrade_args (upgrade f) (globals w)))"
    and "sweep f s (p # ps) w = Exited w'"
  shows "result w' = result w \<and>
         trace w' = trace w @ fatal_events f (snd p) (globals w' ''UPGRADE_STARTED'' \<noteq> None)"
  using assms
  by (simp add: Let_def emit_def fatal_events_def split: if_splits) auto

lemma sweep_Exited:
  "sweep f s ps w = Exited w' \<Longrightarrow>
     result w' = result w \<and>
     (\<exists>pre p post. ps = pre @ p # post \<and>
        trace w' = trace w @ map (\<lambda>p. UpgradeDatabase (snd p) True) pre
          @ fatal_events f (snd p) (globals w' ''UPGRADE_STARTED'' \<noteq> None))"
proof (induction ps arbitrary: w)
  case Nil
  then show ?case by simp
next
  case (Cons p ps)
  let ?r = "s (snd p) (set_upgrade_args (upgrade f) (globals w))"
  let ?w1 = "emit (UpgradeDatabase (snd p) (fst ?r)) (w\<lparr>globals := snd ?r\<rparr>)"
  show ?case
  proof (cases "fst ?r")
    case True
    with Cons.prems have rest: "sweep f s ps ?w1 = Exited w'"
      by (simp add: Let_def)
    from Cons.IH [OF rest] obtain pre q post where
      r: "result w' = result ?w1" and ps: "ps = pre @ q # post" and
      t: "trace w' = trace ?w1 @ map (\<lambda>p. UpgradeDatabase (snd p) True) pre
          @ fatal_events f (snd q) (globals w' ''UPGRADE_STARTED'' \<noteq> None)"
      by blast
    from ps have 1: "p # ps = (p # pre) @ q # post" by simp
    from t True have 2: "trace w' = trace w @ map (\<lambda>p. UpgradeDatabase (snd p) True) (p # pre)
          @ fatal_events f (snd q) (globals w' ''UPGRADE_STARTED'' \<noteq> None)"
      by (simp add: emit_def)
    from r have 3: "result w' = result w" by (simp add: emit_def)
    from 1 2 3 show ?thesis by blast
  next
    case False
    from sweep_fail_step [OF False Cons.prems]
    have "result w' = result w"
      and "trace w' = trace w @ map (\<lambda>p. UpgradeDatabase (snd p) True) []
          @ fatal_events f (snd p) (globals w' ''UPGRADE_STARTED'' \<noteq> None)"
      by simp_all
    moreover have "p # ps = [] @ p # ps" by simp
    ultimately show ?thesis by blast
  qed
qed

subsection \<open>Auxiliary facts about the two functions around it\<close>

lemma upgradeDatabase_unfold:
  "upgradeDatabase f e w =
     (case sweep f (TRI_UpgradeDatabase e) (databases e) (entered e w) of
        Exited w' \<Rightarrow> Exited w'
      | Returned w6 \<Rightarrow>
          Returned (w6\<lparr>trace := trace w6 @ leave_events f,
                       result := (if upgrade f then EXIT_SUCCESS else result w6)\<rparr>))"
  by (simp add: upgradeDatabase_def entered_def enter_events_def leave_events_def emit_def Let_def
      split: run.splits)

lemma upgradeDatabase_Returned:
  assumes "upgradeDatabase f e w = Returned w'"
  shows "trace w' = trace w @ enter_events e
           @ map (\<lambda>p. UpgradeDatabase (snd p) True) (databases e) @ leave_events f"
    and "result w' = (if upgrade f then EXIT_SUCCESS else result w)"
proof -
  from assms obtain w6 where
    s: "sweep f (TRI_UpgradeDatabase e) (databases e) (entered e w) = Returned w6" and
    w': "w' = w6\<lparr>trace := trace w6 @ leave_events f,
                  result := (if upgrade f then EXIT_SUCCESS else result w6)\<rparr>"
    by (auto simp: upgradeDatabase_unfold split: run.splits)
  from sweep_Returned [OF s] w'
  show "trace w' = trace w @ enter_events e
           @ map (\<lambda>p. UpgradeDatabase (snd p) True) (databases e) @ leave_events f"
    and "result w' = (if upgrade f then EXIT_SUCCESS else result w)"
    by (simp_all add: entered_def)
qed

lemma upgradeDatabase_Exited:
  assumes "upgradeDatabase f e w = Exited w'"
  shows "result w' = result w \<and>
     (\<exists>pre p post. databases e = pre @ p # post \<and>
        trace w' = trace w @ enter_events e @ map (\<lambda>p. UpgradeDatabase (snd p) True) pre
          @ fatal_events f (snd p) (globals w' ''UPGRADE_STARTED'' \<noteq> None))"
proof -
  from assms have s: "sweep f (TRI_UpgradeDatabase e) (databases e) (entered e w) = Exited w'"
    by (auto simp: upgradeDatabase_unfold split: run.splits)
  from sweep_Exited [OF s] show ?thesis by (simp add: entered_def)
qed

lemma start_Returned:
  assumes "start f e w = Returned w'"
  shows "wal_open e"
    and "trace w' = trace w @ start_events e
           @ (if upgradeCheck f
              then enter_events e @ map (\<lambda>p. UpgradeDatabase (snd p) True) (databases e)
                     @ leave_events f
              else [])
           @ (if upgrade f then [BeginShutdown] else [])"
    and "result w' = (if upgrade f \<and> upgradeCheck f then EXIT_SUCCESS else result w)"
proof -
  let ?w2 = "w\<lparr>trace := trace w @ start_events e\<rparr>"
  from assms show wal: "wal_open e"
    by (auto simp: start_def Let_def split: if_splits)
  show "trace w' = trace w @ start_events e
           @ (if upgradeCheck f
              then enter_events e @ map (\<lambda>p. UpgradeDatabase (snd p) True) (databases e)
                     @ leave_events f
              else [])
           @ (if upgrade f then [BeginShutdown] else [])"
  proof (cases "upgradeCheck f")
    case True
    with assms wal obtain w3 where u: "upgradeDatabase f e ?w2 = Returned w3"
      and w': "w' = (if upgrade f then emit BeginShutdown w3 else w3)"
      by (auto simp: start_def Let_def emit_def start_events_def split: run.splits)
    from upgradeDatabase_Returned(1) [OF u] w' True show ?thesis
      by (simp add: emit_def)
  next
    case False
    with assms wal show ?thesis
      by (auto simp: start_def Let_def emit_def start_events_def)
  qed
  show "result w' = (if upgrade f \<and> upgradeCheck f then EXIT_SUCCESS else result w)"
  proof (cases "upgradeCheck f")
    case True
    with assms wal obtain w3 where u: "upgradeDatabase f e ?w2 = Returned w3"
      and w': "w' = (if upgrade f then emit BeginShutdown w3 else w3)"
      by (auto simp: start_def Let_def emit_def start_events_def split: run.splits)
    from upgradeDatabase_Returned(2) [OF u] w' True show ?thesis
      by (simp add: emit_def)
  next
    case False
    with assms wal show ?thesis
      by (auto simp: start_def Let_def emit_def start_events_def)
  qed
qed

lemma start_Exited:
  assumes "start f e w = Exited w'"
  shows "result w' = result w"
    and "(\<not> wal_open e \<and> trace w' = trace w @ start_events e @ [Log FATAL msg_wal]) \<or>
         (wal_open e \<and> upgradeCheck f \<and>
          (\<exists>pre p post. databases e = pre @ p # post \<and>
             trace w' = trace w @ start_events e @ enter_events e
               @ map (\<lambda>p. UpgradeDatabase (snd p) True) pre
               @ fatal_events f (snd p) (globals w' ''UPGRADE_STARTED'' \<noteq> None)))"
proof -
  let ?w2 = "w\<lparr>trace := trace w @ start_events e\<rparr>"
  have both: "result w' = result w \<and>
        ((\<not> wal_open e \<and> trace w' = trace w @ start_events e @ [Log FATAL msg_wal]) \<or>
         (wal_open e \<and> upgradeCheck f \<and>
          (\<exists>pre p post. databases e = pre @ p # post \<and>
             trace w' = trace w @ start_events e @ enter_events e
               @ map (\<lambda>p. UpgradeDatabase (snd p) True) pre
               @ fatal_events f (snd p) (globals w' ''UPGRADE_STARTED'' \<noteq> None))))"
  proof (cases "wal_open e")
    case False
    with assms show ?thesis
      by (auto simp: start_def Let_def emit_def start_events_def)
  next
    case True
    with assms have c: "upgradeCheck f" and u: "upgradeDatabase f e ?w2 = Exited w'"
      by (auto simp: start_def Let_def emit_def start_events_def split: run.splits if_splits)
    from upgradeDatabase_Exited [OF u] True c show ?thesis by simp
  qed
  from both show "result w' = result w" by simp
  from both show "(\<not> wal_open e \<and> trace w' = trace w @ start_events e @ [Log FATAL msg_wal]) \<or>
         (wal_open e \<and> upgradeCheck f \<and>
          (\<exists>pre p post. databases e = pre @ p # post \<and>
             trace w' = trace w @ start_events e @ enter_events e
               @ map (\<lambda>p. UpgradeDatabase (snd p) True) pre
               @ fatal_events f (snd p) (globals w' ''UPGRADE_STARTED'' \<noteq> None)))" by simp
qed

subsection \<open>Auxiliary facts about the events of a run\<close>

lemma invoked_append: "invoked (xs @ ys) = invoked xs @ invoked ys"
  by (induction xs rule: invoked.induct) simp_all

lemma invoked_map: "invoked (map (\<lambda>p. UpgradeDatabase (snd p) b) ps) = map snd ps"
  by (induction ps) simp_all

lemma invoked_fixed:
  "invoked (start_events e) = []" "invoked (enter_events e) = []" "invoked (leave_events f) = []"
  by (simp_all add: start_events_def enter_events_def leave_events_def)

lemma invoked_fatal: "invoked (fatal_events f vb b) = [vb]"
  by (simp add: fatal_events_def)

lemma start_Exited_events:
  assumes "start f e w = Exited w'"
  shows "(\<not> wal_open e \<and> events_of w (start f e w) = start_events e @ [Log FATAL msg_wal]) \<or>
         (wal_open e \<and> upgradeCheck f \<and>
          (\<exists>pre p post. databases e = pre @ p # post \<and>
             events_of w (start f e w) = start_events e @ enter_events e
               @ map (\<lambda>p. UpgradeDatabase (snd p) True) pre
               @ fatal_events f (snd p) (globals w' ''UPGRADE_STARTED'' \<noteq> None)))"
proof -
  from assms have eq: "\<And>es. trace w' = trace w @ es \<Longrightarrow> events_of w (start f e w) = es"
    by (simp add: events_of_def)
  from start_Exited(2) [OF assms] show ?thesis
  proof (elim disjE conjE exE)
    assume "\<not> wal_open e" and "trace w' = trace w @ start_events e @ [Log FATAL msg_wal]"
    with eq show ?thesis by simp
  next
    fix pre p post
    assume "wal_open e" "upgradeCheck f" "databases e = pre @ p # post"
      and "trace w' = trace w @ start_events e @ enter_events e
               @ map (\<lambda>p. UpgradeDatabase (snd p) True) pre
               @ fatal_events f (snd p) (globals w' ''UPGRADE_STARTED'' \<noteq> None)"
    with eq show ?thesis by blast
  qed
qed

lemma start_Returned_events:
  assumes "start f e w = Returned w'"
  shows "events_of w (start f e w) = start_events e
           @ (if upgradeCheck f
              then enter_events e @ map (\<lambda>p. UpgradeDatabase (snd p) True) (databases e)
                     @ leave_events f
              else [])
           @ (if upgrade f then [BeginShutdown] else [])"
  using start_Returned(2) [OF assms] assms by (simp add: events_of_def)

lemma failed_call_in_exit:
  assumes "start f e w = Exited w'" and "wal_open e"
  shows "\<exists>vb. UpgradeDatabase vb False \<in> set (events_of w (start f e w))"
  using start_Exited_events [OF assms(1)] assms(2) by (auto simp: fatal_events_def)

lemma all_ok_Returned:
  assumes "wal_open e"
    and "\<forall>vb ok. UpgradeDatabase vb ok \<in> set (events_of w (start f e w)) \<longrightarrow> ok"
  shows "\<exists>w'. start f e w = Returned w'"
proof (cases "start f e w")
  case (Returned w')
  then show ?thesis by simp
next
  case (Exited w')
  from failed_call_in_exit [OF Exited assms(1)] assms(2) show ?thesis by blast
qed

lemma validate_Returned: "validateOptions f w0 = Returned w1 \<Longrightarrow> upgrade f \<Longrightarrow> upgradeCheck f"
  by (auto simp: validateOptions_def Let_def split: if_splits)

lemma validate_frame:
  "result (world_of (validateOptions f w)) = result w"
  "WriteResult x \<notin> set (events_of w (validateOptions f w))"
  by (simp_all add: validateOptions_def Let_def emit_def events_of_def)

lemma failed_call_exits:
  assumes "UpgradeDatabase vb False \<in> set (events_of w (start f e w))"
  shows "\<exists>w' pre p post. start f e w = Exited w' \<and> databases e = pre @ p # post \<and> snd p = vb \<and>
           events_of w (start f e w) = start_events e @ enter_events e
               @ map (\<lambda>p. UpgradeDatabase (snd p) True) pre
               @ fatal_events f vb (globals w' ''UPGRADE_STARTED'' \<noteq> None)"
proof (cases "start f e w")
  case (Returned w')
  from start_Returned_events [OF Returned] assms show ?thesis
    by (auto simp: start_events_def enter_events_def leave_events_def split: if_splits)
next
  case (Exited w')
  from start_Exited_events [OF Exited] show ?thesis
  proof (elim disjE conjE exE)
    assume "events_of w (start f e w) = start_events e @ [Log FATAL msg_wal]"
    with assms show ?thesis by (simp add: start_events_def)
  next
    fix pre p post
    assume d: "databases e = pre @ p # post"
      and ev: "events_of w (start f e w) = start_events e @ enter_events e
               @ map (\<lambda>p. UpgradeDatabase (snd p) True) pre
               @ fatal_events f (snd p) (globals w' ''UPGRADE_STARTED'' \<noteq> None)"
    from assms have "snd p = vb"
      by (auto simp: ev start_events_def enter_events_def fatal_events_def split: if_splits)
    with d ev Exited show ?thesis by blast
  qed
qed

subsection \<open>Sample runs\<close>

lemmas run_defs =
  start_def upgradeDatabase_def validateOptions_def bootstrap_def sample_feature_def
  sample_env_def script_succeeds_def script_fails_started_def script_fails_unstarted_def
  world0_def emit_def set_upgrade_args_def EXIT_SUCCESS_def db_def Let_def

text \<open>An upgrade of two databases that both succeed.\<close>

lemma run_upgrade_ok:
  "start (sample_feature True True) (sample_env True [''_system'', ''shop''] script_succeeds) world0
     = Returned
         \<lparr>trace =
            [Log TRACE ''Upgrade::start'', WalOpen True,
             Log TRACE ''starting database init/upgrade'', EnterContext (db ''_system'') True 0,
             LocalEnter, ScopeEnter, Log DEBUG ''running database init/upgrade'',
             UpgradeDatabase (db ''_system'') True, UpgradeDatabase (db ''shop'') True,
             ScopeExit, LocalExit, ExitContext,
             WriteResult EXIT_SUCCESS, Log INFO ''database upgrade passed'',
             Log TRACE ''finished database init/upgrade'', BeginShutdown],
          result = EXIT_SUCCESS,
          globals = [''UPGRADE_ARGS'' \<mapsto> JSObject [(''upgrade'', JSBoolean True)],
                     ''UPGRADE_STARTED'' \<mapsto> JSBoolean True]\<rparr>"
  by (simp add: run_defs)

text \<open>An upgrade check of three databases that all succeed.\<close>

lemma run_check_ok:
  "start (sample_feature False True)
     (sample_env True [''_system'', ''shop'', ''logs''] script_succeeds) world0
     = Returned
         \<lparr>trace =
            [Log TRACE ''Upgrade::start'', WalOpen True,
             Log TRACE ''starting database init/upgrade'', EnterContext (db ''_system'') True 0,
             LocalEnter, ScopeEnter, Log DEBUG ''running database init/upgrade'',
             UpgradeDatabase (db ''_system'') True, UpgradeDatabase (db ''shop'') True,
             UpgradeDatabase (db ''logs'') True,
             ScopeExit, LocalExit, ExitContext,
             Log TRACE ''finished database init/upgrade''],
          result = 1,
          globals = [''UPGRADE_ARGS'' \<mapsto> JSObject [(''upgrade'', JSBoolean False)],
                     ''UPGRADE_STARTED'' \<mapsto> JSBoolean True]\<rparr>"
  by (simp add: run_defs)

text \<open>An upgrade of two databases whose script sets the marker and fails.\<close>

lemma run_upgrade_fail_started:
  "start (sample_feature True True)
     (sample_env True [''_system'', ''shop''] script_fails_started) world0
     = Exited
         \<lparr>trace =
            [Log TRACE ''Upgrade::start'', WalOpen True,
             Log TRACE ''starting database init/upgrade'', EnterContext (db ''_system'') True 0,
             LocalEnter, ScopeEnter, Log DEBUG ''running database init/upgrade'',
             UpgradeDatabase (db ''_system'') False, LocalExit,
             Log FATAL (msg_upgrade_failed ''_system'')],
          result = 1,
          globals = [''UPGRADE_ARGS'' \<mapsto> JSObject [(''upgrade'', JSBoolean True)],
                     ''UPGRADE_STARTED'' \<mapsto> JSBoolean True]\<rparr>"
  by (simp add: run_defs)

text \<open>An upgrade check of one database whose script sets the marker and fails.\<close>

lemma run_check_fail_started:
  "start (sample_feature False True) (sample_env True [''_system''] script_fails_started) world0
     = Exited
         \<lparr>trace =
            [Log TRACE ''Upgrade::start'', WalOpen True,
             Log TRACE ''starting database init/upgrade'', EnterContext (db ''_system'') True 0,
             LocalEnter, ScopeEnter, Log DEBUG ''running database init/upgrade'',
             UpgradeDatabase (db ''_system'') False, LocalExit,
             Log FATAL (msg_needs_upgrade ''_system'')],
          result = 1,
          globals = [''UPGRADE_ARGS'' \<mapsto> JSObject [(''upgrade'', JSBoolean False)],
                     ''UPGRADE_STARTED'' \<mapsto> JSBoolean True]\<rparr>"
  by (simp add: run_defs)

text \<open>An upgrade check of one database whose script fails and sets no marker.\<close>

lemma run_check_fail_unstarted:
  "start (sample_feature False True) (sample_env True [''_system''] script_fails_unstarted) world0
     = Exited
         \<lparr>trace =
            [Log TRACE ''Upgrade::start'', WalOpen True,
             Log TRACE ''starting database init/upgrade'', EnterContext (db ''_system'') True 0,
             LocalEnter, ScopeEnter, Log DEBUG ''running database init/upgrade'',
             UpgradeDatabase (db ''_system'') False,
             Log FATAL msg_js_error],
          result = 1,
          globals = [''UPGRADE_ARGS'' \<mapsto> JSObject [(''upgrade'', JSBoolean False)]]\<rparr>"
  by (simp add: run_defs)

lemma sample_feature_simps:
  "upgrade (sample_feature u c) = u" "upgradeCheck (sample_feature u c) = c"
  by (simp_all add: sample_feature_def)

lemma world0_simps: "trace world0 = []" "result world0 = 1" "globals world0 = Map.empty"
  by (simp_all add: world0_def)

text \<open>The loop function alone, on a database whose script sets the marker and fails.\<close>

lemma run_sweep_fail_started:
  "upgradeDatabase (sample_feature True True)
     (sample_env True [''_system''] script_fails_started) world0
     = Exited
         \<lparr>trace =
            [Log TRACE ''starting database init/upgrade'', EnterContext (db ''_system'') True 0,
             LocalEnter, ScopeEnter, Log DEBUG ''running database init/upgrade'',
             UpgradeDatabase (db ''_system'') False, LocalExit,
             Log FATAL (msg_upgrade_failed ''_system'')],
          result = 1,
          globals = [''UPGRADE_ARGS'' \<mapsto> JSObject [(''upgrade'', JSBoolean True)],
                     ''UPGRADE_STARTED'' \<mapsto> JSBoolean True]\<rparr>"
  by (simp add: run_defs)

text \<open>The loop function alone, on a database whose script succeeds.\<close>

lemma run_sweep_ok:
  "upgradeDatabase (sample_feature False True)
     (sample_env True [''_system''] script_succeeds) world0
     = Returned
         \<lparr>trace =
            [Log TRACE ''starting database init/upgrade'', EnterContext (db ''_system'') True 0,
             LocalEnter, ScopeEnter, Log DEBUG ''running database init/upgrade'',
             UpgradeDatabase (db ''_system'') True,
             ScopeExit, LocalExit, ExitContext,
             Log TRACE ''finished database init/upgrade''],
          result = 1,
          globals = [''UPGRADE_ARGS'' \<mapsto> JSObject [(''upgrade'', JSBoolean False)],
                     ''UPGRADE_STARTED'' \<mapsto> JSBoolean True]\<rparr>"
  by (simp add: run_defs)

section \<open>The claims\<close>

text \<open>
  A run of \<open>start\<close> is read through \<open>events_of\<close>: the calls it added to the trace. The call
  \<open>UpgradeDatabase vb ok\<close> in it says that the script was run on \<open>vb\<close> and returned \<open>ok\<close>. The
  process ends at the first failing call, so the global object of the final world of an
  exited sweep is the one the failing call left behind, and the test the code makes for
  "the procedure started" is the presence of \<^verbatim>\<open>UPGRADE_STARTED\<close> in it.
\<close>

text \<open>
  C1 (as amended). For every database of the sweep whose maintenance procedure fails, the
  process exits fatally, and the message depends on the started-marker: when the marker is
  present, the message names the database and asks to start the server with the upgrade
  option if upgrade was not requested, or reports that the upgrade failed if it was; when
  the marker is absent, the message is the generic script-error one. The texts are
  written out: the name of the database stands between the quotes of the first two.
\<close>

theorem failure_message_by_marker:
  assumes "UpgradeDatabase vb False \<in> set (events_of w (start f e w))"
  shows "\<exists>w' es. start f e w = Exited w' \<and>
           events_of w (start f e w)
             = es @ UpgradeDatabase vb False
                 # (if globals w' ''UPGRADE_STARTED'' \<noteq> None
                    then [LocalExit,
                          Log FATAL
                            (if upgrade f
                             then ''Database '' @ [CHR 0x27] @ vocbase_name vb @ [CHR 0x27]
                                @ '' upgrade failed. Please inspect the logs from the upgrade procedure''
                             else ''Database '' @ [CHR 0x27] @ vocbase_name vb @ [CHR 0x27]
                                @ '' needs upgrade. Please start the server with the --upgrade option'')]
                    else [Log FATAL ''JavaScript error during server start''])"
proof -
  from failed_call_exits [OF assms] obtain w' pre p post where
    r: "start f e w = Exited w'" and d: "databases e = pre @ p # post" and
    ev: "events_of w (start f e w) = start_events e @ enter_events e
               @ map (\<lambda>p. UpgradeDatabase (snd p) True) pre
               @ fatal_events f vb (globals w' ''UPGRADE_STARTED'' \<noteq> None)"
    by blast
  let ?es = "start_events e @ enter_events e @ map (\<lambda>p. UpgradeDatabase (snd p) True) pre"
  have tail: "fatal_events f vb (globals w' ''UPGRADE_STARTED'' \<noteq> None)
      = UpgradeDatabase vb False
          # (if globals w' ''UPGRADE_STARTED'' \<noteq> None
             then [LocalExit,
                   Log FATAL
                     (if upgrade f
                      then ''Database '' @ [CHR 0x27] @ vocbase_name vb @ [CHR 0x27]
                         @ '' upgrade failed. Please inspect the logs from the upgrade procedure''
                      else ''Database '' @ [CHR 0x27] @ vocbase_name vb @ [CHR 0x27]
                         @ '' needs upgrade. Please start the server with the --upgrade option'')]
             else [Log FATAL ''JavaScript error during server start''])"
    by (simp add: fatal_events_def msg_upgrade_failed_def msg_needs_upgrade_def msg_js_error_def)
  from ev have "events_of w (start f e w)
      = ?es @ fatal_events f vb (globals w' ''UPGRADE_STARTED'' \<noteq> None)"
    by simp
  with r show ?thesis unfolding tail by blast
qed

theorem failure_message_by_marker_witness:
  "UpgradeDatabase (db ''_system'') False
     \<in> set (events_of world0
              (start (sample_feature False True)
                 (sample_env True [''_system''] script_fails_started) world0)) \<and>
   (\<exists>es. events_of world0
           (start (sample_feature False True)
              (sample_env True [''_system''] script_fails_started) world0)
         = es @ [UpgradeDatabase (db ''_system'') False, LocalExit,
                 Log FATAL (''Database '' @ [CHR 0x27] @ ''_system'' @ [CHR 0x27]
                    @ '' needs upgrade. Please start the server with the --upgrade option'')])"
proof -
  have h: "UpgradeDatabase (db ''_system'') False
     \<in> set (events_of world0
              (start (sample_feature False True)
                 (sample_env True [''_system''] script_fails_started) world0))"
    by (simp add: run_check_fail_started events_of_def world0_simps)
  have g: "globals (world_of (start (sample_feature False True)
                 (sample_env True [''_system''] script_fails_started) world0))
              ''UPGRADE_STARTED'' \<noteq> None"
    by (simp add: run_check_fail_started)
  from failure_message_by_marker [OF h] obtain w' es where
    r: "start (sample_feature False True) (sample_env True [''_system''] script_fails_started)
          world0 = Exited w'"
    and ev: "events_of world0
       (start (sample_feature False True) (sample_env True [''_system''] script_fails_started)
          world0)
       = es @ UpgradeDatabase (db ''_system'') False
           # (if globals w' ''UPGRADE_STARTED'' \<noteq> None
              then [LocalExit,
                    Log FATAL
                      (if upgrade (sample_feature False True)
                       then ''Database '' @ [CHR 0x27] @ vocbase_name (db ''_system'') @ [CHR 0x27]
                          @ '' upgrade failed. Please inspect the logs from the upgrade procedure''
                       else ''Database '' @ [CHR 0x27] @ vocbase_name (db ''_system'') @ [CHR 0x27]
                          @ '' needs upgrade. Please start the server with the --upgrade option'')]
              else [Log FATAL ''JavaScript error during server start''])"
    by blast
  from g r have m: "globals w' ''UPGRADE_STARTED'' \<noteq> None" by simp
  from ev m have "events_of world0
       (start (sample_feature False True) (sample_env True [''_system''] script_fails_started)
          world0)
       = es @ [UpgradeDatabase (db ''_system'') False, LocalExit,
               Log FATAL (''Database '' @ [CHR 0x27] @ ''_system'' @ [CHR 0x27]
                  @ '' needs upgrade. Please start the server with the --upgrade option'')]"
    by (simp add: sample_feature_simps db_def)
  with h show ?thesis by blast
qed

text \<open>
  The claim as it stands fails: an upgrade check (upgrade not requested) of one database
  whose script fails without setting the marker ends with the script-error message, and
  the message asking for the upgrade option is not logged.
\<close>

theorem unstarted_failure_counterexample:
  "\<not> upgrade (sample_feature False True) \<and>
   UpgradeDatabase (db ''_system'') False
     \<in> set (events_of world0
              (start (sample_feature False True)
                 (sample_env True [''_system''] script_fails_unstarted) world0)) \<and>
   globals (world_of (start (sample_feature False True)
                        (sample_env True [''_system''] script_fails_unstarted) world0))
     ''UPGRADE_STARTED'' = None \<and>
   events_of world0
     (start (sample_feature False True)
        (sample_env True [''_system''] script_fails_unstarted) world0)
     = [Log TRACE ''Upgrade::start'', WalOpen True,
        Log TRACE ''starting database init/upgrade'', EnterContext (db ''_system'') True 0,
        LocalEnter, ScopeEnter, Log DEBUG ''running database init/upgrade'',
        UpgradeDatabase (db ''_system'') False,
        Log FATAL ''JavaScript error during server start''] \<and>
   Log FATAL (''Database '' @ [CHR 0x27] @ ''_system'' @ [CHR 0x27]
      @ '' needs upgrade. Please start the server with the --upgrade option'')
     \<notin> set (events_of world0
              (start (sample_feature False True)
                 (sample_env True [''_system''] script_fails_unstarted) world0))"
  by (simp add: run_check_fail_unstarted events_of_def world0_simps sample_feature_simps
        msg_js_error_def)

text \<open>
  C2. With upgrade = true and upgrade-check = false, \<open>validateOptions\<close> ends the process
  with a fatal message. The phases run in the order validateOptions, start, so the whole
  bootstrap ends there: its events are the two log lines of the validation, the
  write-ahead log is never opened and no database is visited.
\<close>

theorem conflict_rejected_before_start:
  assumes "upgrade f" and "\<not> upgradeCheck f"
  shows "\<exists>w'. validateOptions f w = Exited w' \<and> bootstrap f e w = Exited w' \<and>
           events_of w (bootstrap f e w)
             = [Log TRACE ''Upgrade::validateOptions'', Log FATAL msg_conflict] \<and>
           invoked (events_of w (bootstrap f e w)) = [] \<and>
           WalOpen b \<notin> set (events_of w (bootstrap f e w))"
  using assms by (simp add: bootstrap_def validateOptions_def Let_def emit_def events_of_def)

theorem conflict_rejected_before_start_witness:
  "upgrade (sample_feature True False) \<and> \<not> upgradeCheck (sample_feature True False) \<and>
   bootstrap (sample_feature True False) (sample_env True [''_system''] script_succeeds) world0
     = Exited \<lparr>trace = [Log TRACE ''Upgrade::validateOptions'', Log FATAL msg_conflict],
               result = 1, globals = Map.empty\<rparr>"
proof -
  have h1: "upgrade (sample_feature True False)"
    and h2: "\<not> upgradeCheck (sample_feature True False)"
    by (simp_all add: sample_feature_def)
  from conflict_rejected_before_start
         [OF h1 h2, of world0 "sample_env True [''_system''] script_succeeds" True]
  obtain w' where
    "bootstrap (sample_feature True False) (sample_env True [''_system''] script_succeeds) world0
       = Exited w'"
    by blast
  with h1 h2 show ?thesis by (simp add: run_defs)
qed

text \<open>
  C3. In a sweep with upgrade = true, when the procedure of a database fails and the
  started-marker is present, the process exits: the run ends with that call, the leaving
  of the local context and the fatal message, whose text (written out) carries the name
  of that database between quotes, and the databases the procedure was run on are those
  up to and including the failing one, none of the later ones.
\<close>

theorem started_failure_is_fail_fast:
  assumes "upgrade f"
    and "UpgradeDatabase vb False \<in> set (events_of w (start f e w))"
    and "globals (world_of (start f e w)) ''UPGRADE_STARTED'' \<noteq> None"
  shows "\<exists>w' es pre p post. start f e w = Exited w' \<and>
           events_of w (start f e w)
             = es @ [UpgradeDatabase vb False, LocalExit,
                     Log FATAL
                       (''Database '' @ [CHR 0x27] @ vocbase_name vb @ [CHR 0x27]
                          @ '' upgrade failed. Please inspect the logs from the upgrade procedure'')] \<and>
           databases e = pre @ p # post \<and> snd p = vb \<and>
           invoked (events_of w (start f e w)) = map snd pre @ [vb]"
proof -
  from failed_call_exits [OF assms(2)] obtain w' pre p post where
    r: "start f e w = Exited w'" and d: "databases e = pre @ p # post" and p: "snd p = vb" and
    ev: "events_of w (start f e w) = start_events e @ enter_events e
               @ map (\<lambda>p. UpgradeDatabase (snd p) True) pre
               @ fatal_events f vb (globals w' ''UPGRADE_STARTED'' \<noteq> None)"
    by blast
  from assms(3) r have m: "globals w' ''UPGRADE_STARTED'' \<noteq> None" by simp
  let ?es = "start_events e @ enter_events e @ map (\<lambda>p. UpgradeDatabase (snd p) True) pre"
  from m assms(1) have tail: "fatal_events f vb (globals w' ''UPGRADE_STARTED'' \<noteq> None)
      = [UpgradeDatabase vb False, LocalExit,
         Log FATAL
           (''Database '' @ [CHR 0x27] @ vocbase_name vb @ [CHR 0x27]
              @ '' upgrade failed. Please inspect the logs from the upgrade procedure'')]"
    by (simp add: fatal_events_def msg_upgrade_failed_def)
  from ev have 1: "events_of w (start f e w)
      = ?es @ fatal_events f vb (globals w' ''UPGRADE_STARTED'' \<noteq> None)"
    by simp
  have 2: "invoked (events_of w (start f e w)) = map snd pre @ [vb]"
    by (simp add: ev invoked_append invoked_map invoked_fixed invoked_fatal)
  from r 1 2 d p show ?thesis unfolding tail by blast
qed

theorem started_failure_is_fail_fast_witness:
  "upgrade (sample_feature True True) \<and>
   (\<exists>w' es pre p post.
      start (sample_feature True True) (sample_env True [''_system'', ''shop''] script_fails_started)
        world0 = Exited w' \<and>
      events_of world0
        (start (sample_feature True True)
           (sample_env True [''_system'', ''shop''] script_fails_started) world0)
        = es @ [UpgradeDatabase (db ''_system'') False, LocalExit,
                Log FATAL (''Database '' @ [CHR 0x27] @ ''_system'' @ [CHR 0x27]
                   @ '' upgrade failed. Please inspect the logs from the upgrade procedure'')] \<and>
      databases (sample_env True [''_system'', ''shop''] script_fails_started) = pre @ p # post \<and>
      snd p = db ''_system'' \<and>
      invoked (events_of world0
                 (start (sample_feature True True)
                    (sample_env True [''_system'', ''shop''] script_fails_started) world0))
        = map snd pre @ [db ''_system''])"
proof -
  have h1: "upgrade (sample_feature True True)"
    by (simp add: sample_feature_def)
  have h2: "UpgradeDatabase (db ''_system'') False
     \<in> set (events_of world0
              (start (sample_feature True True)
                 (sample_env True [''_system'', ''shop''] script_fails_started) world0))"
    by (simp add: run_upgrade_fail_started events_of_def world0_simps)
  have h3: "globals (world_of (start (sample_feature True True)
                 (sample_env True [''_system'', ''shop''] script_fails_started) world0))
              ''UPGRADE_STARTED'' \<noteq> None"
    by (simp add: run_upgrade_fail_started)
  have n: "vocbase_name (db ''_system'') = ''_system''"
    by (simp add: db_def)
  from h1 started_failure_is_fail_fast [OF h1 h2 h3] show ?thesis
    unfolding n by blast
qed

text \<open>
  C4. In a run with upgrade = true that passed the validation, in which the write-ahead
  log opens and every call of the maintenance procedure reports success, \<open>start\<close> returns,
  the result output holds \<^verbatim>\<open>EXIT_SUCCESS\<close>, every database of the snapshot was visited, and
  the shutdown request is the last event, after the sweep and the writing of the result.
\<close>

theorem successful_upgrade_sets_result_and_shuts_down:
  assumes "upgrade f"
    and "validateOptions f w0 = Returned w1"
    and "wal_open e"
    and "\<forall>vb ok. UpgradeDatabase vb ok \<in> set (events_of w (start f e w)) \<longrightarrow> ok"
  shows "\<exists>w' es. start f e w = Returned w' \<and> result w' = EXIT_SUCCESS \<and>
           events_of w (start f e w) =
             es @ [WriteResult EXIT_SUCCESS, Log INFO ''database upgrade passed'',
                   Log TRACE ''finished database init/upgrade'', BeginShutdown] \<and>
           invoked es = map snd (databases e)"
proof -
  from validate_Returned [OF assms(2) assms(1)] have c: "upgradeCheck f" .
  from all_ok_Returned [OF assms(3) assms(4)] obtain w' where r: "start f e w = Returned w'" ..
  let ?es = "start_events e @ enter_events e
               @ map (\<lambda>p. UpgradeDatabase (snd p) True) (databases e) @ [ScopeExit, LocalExit, ExitContext]"
  from start_Returned(3) [OF r] assms(1) c have "result w' = EXIT_SUCCESS" by simp
  moreover from start_Returned_events [OF r] assms(1) c
  have "events_of w (start f e w) =
             ?es @ [WriteResult EXIT_SUCCESS, Log INFO ''database upgrade passed'',
                   Log TRACE ''finished database init/upgrade'', BeginShutdown]"
    by (simp add: leave_events_def)
  moreover have "invoked ?es = map snd (databases e)"
    by (simp add: invoked_append invoked_map invoked_fixed)
  ultimately show ?thesis using r by blast
qed

theorem successful_upgrade_witness:
  "upgrade (sample_feature True True) \<and>
   wal_open (sample_env True [''_system'', ''shop''] script_succeeds) \<and>
   (\<exists>w' es.
      start (sample_feature True True) (sample_env True [''_system'', ''shop''] script_succeeds)
        world0 = Returned w' \<and>
      result w' = EXIT_SUCCESS \<and>
      events_of world0
        (start (sample_feature True True) (sample_env True [''_system'', ''shop''] script_succeeds)
           world0)
        = es @ [WriteResult EXIT_SUCCESS, Log INFO ''database upgrade passed'',
                Log TRACE ''finished database init/upgrade'', BeginShutdown] \<and>
      invoked es = map snd (databases (sample_env True [''_system'', ''shop''] script_succeeds)))"
proof -
  have h1: "upgrade (sample_feature True True)"
    by (simp add: sample_feature_def)
  have h2: "validateOptions (sample_feature True True) world0
              = Returned (world_of (validateOptions (sample_feature True True) world0))"
    by (simp add: validateOptions_def sample_feature_def Let_def)
  have h3: "wal_open (sample_env True [''_system'', ''shop''] script_succeeds)"
    by (simp add: sample_env_def)
  have h4: "\<forall>vb ok. UpgradeDatabase vb ok
              \<in> set (events_of world0
                       (start (sample_feature True True)
                          (sample_env True [''_system'', ''shop''] script_succeeds) world0))
              \<longrightarrow> ok"
    by (auto simp: run_upgrade_ok events_of_def world0_simps)
  from h1 h3 successful_upgrade_sets_result_and_shuts_down [OF h1 h2 h3 h4]
  show ?thesis by blast
qed

text \<open>
  C5. In a run with upgrade = false and upgrade-check = true, in which the write-ahead
  log opens and every call of the maintenance procedure reports success, \<open>start\<close> returns,
  the procedure was run on the databases of the snapshot, each entry once and in the
  order of the snapshot, and no shutdown is requested.
\<close>

theorem check_run_visits_all_and_continues:
  assumes "\<not> upgrade f" and "upgradeCheck f" and "wal_open e"
    and "\<forall>vb ok. UpgradeDatabase vb ok \<in> set (events_of w (start f e w)) \<longrightarrow> ok"
  shows "\<exists>w'. start f e w = Returned w' \<and> result w' = result w \<and>
           invoked (events_of w (start f e w)) = map snd (databases e) \<and>
           BeginShutdown \<notin> set (events_of w (start f e w))"
proof -
  from all_ok_Returned [OF assms(3) assms(4)] obtain w' where r: "start f e w = Returned w'" ..
  from start_Returned_events [OF r] assms(1) assms(2)
  have ev: "events_of w (start f e w) = start_events e @ enter_events e
              @ map (\<lambda>p. UpgradeDatabase (snd p) True) (databases e) @ leave_events f"
    by simp
  have "invoked (events_of w (start f e w)) = map snd (databases e)"
    by (simp add: ev invoked_append invoked_map invoked_fixed)
  moreover from assms(1) have "BeginShutdown \<notin> set (events_of w (start f e w))"
    by (auto simp: ev start_events_def enter_events_def leave_events_def)
  moreover from start_Returned(3) [OF r] assms(1) have "result w' = result w" by simp
  ultimately show ?thesis using r by blast
qed

theorem check_run_visits_all_witness:
  "\<not> upgrade (sample_feature False True) \<and> upgradeCheck (sample_feature False True) \<and>
   wal_open (sample_env True [''_system'', ''shop'', ''logs''] script_succeeds) \<and>
   (\<exists>w'. start (sample_feature False True)
            (sample_env True [''_system'', ''shop'', ''logs''] script_succeeds) world0
            = Returned w' \<and>
          result w' = result world0 \<and>
          invoked (events_of world0
                     (start (sample_feature False True)
                        (sample_env True [''_system'', ''shop'', ''logs''] script_succeeds) world0))
            = map snd (databases (sample_env True [''_system'', ''shop'', ''logs''] script_succeeds)) \<and>
          BeginShutdown
            \<notin> set (events_of world0
                     (start (sample_feature False True)
                        (sample_env True [''_system'', ''shop'', ''logs''] script_succeeds)
                        world0)))"
proof -
  have h1: "\<not> upgrade (sample_feature False True)"
    and h2: "upgradeCheck (sample_feature False True)"
    by (simp_all add: sample_feature_def)
  have h3: "wal_open (sample_env True [''_system'', ''shop'', ''logs''] script_succeeds)"
    by (simp add: sample_env_def)
  have h4: "\<forall>vb ok. UpgradeDatabase vb ok
              \<in> set (events_of world0
                       (start (sample_feature False True)
                          (sample_env True [''_system'', ''shop'', ''logs''] script_succeeds)
                          world0))
              \<longrightarrow> ok"
    by (auto simp: run_check_ok events_of_def world0_simps)
  from h1 h2 h3 check_run_visits_all_and_continues [OF h1 h2 h3 h4]
  show ?thesis by blast
qed

text \<open>
  C6. When the write-ahead log fails to open, \<open>start\<close> ends the process: the run consists
  of the trace line, the failed opening and the fatal message; \<open>upgradeDatabase\<close> is not
  entered and no database is visited.
\<close>

theorem wal_failure_is_fatal:
  assumes "\<not> wal_open e"
  shows "\<exists>w'. start f e w = Exited w' \<and> result w' = result w \<and>
           events_of w (start f e w)
             = [Log TRACE ''Upgrade::start'', WalOpen False, Log FATAL msg_wal] \<and>
           invoked (events_of w (start f e w)) = []"
  using assms by (simp add: start_def Let_def emit_def events_of_def)

theorem wal_failure_is_fatal_witness:
  "\<not> wal_open (sample_env False [''_system''] script_succeeds) \<and>
   start (sample_feature True True) (sample_env False [''_system''] script_succeeds) world0
     = Exited \<lparr>trace = [Log TRACE ''Upgrade::start'', WalOpen False, Log FATAL msg_wal],
               result = 1, globals = Map.empty\<rparr>"
proof -
  have h: "\<not> wal_open (sample_env False [''_system''] script_succeeds)"
    by (simp add: sample_env_def)
  from wal_failure_is_fatal [OF h, of "sample_feature True True" world0]
  obtain w' where
    "start (sample_feature True True) (sample_env False [''_system''] script_succeeds) world0
       = Exited w'"
    by blast
  with h show ?thesis by (simp add: run_defs)
qed

text \<open>
  C7 (as amended). When the sweep completes, the script context is left and the sandbox
  is released (\<^verbatim>\<open>exitContext\<close>) after the last procedure and before \<open>upgradeDatabase\<close> returns,
  one exit for each enter. On the paths that end in fatal termination the process exits
  without releasing the sandbox: \<^verbatim>\<open>exitContext\<close> is not called.
\<close>

theorem sandbox_released_when_sweep_returns:
  "(\<forall>w'. upgradeDatabase f e w = Returned w' \<longrightarrow>
      events_of w (upgradeDatabase f e w)
        = [Log TRACE ''starting database init/upgrade'', EnterContext (systemVocbase e) True 0,
           LocalEnter, ScopeEnter, Log DEBUG ''running database init/upgrade'']
          @ map (\<lambda>p. UpgradeDatabase (snd p) True) (databases e)
          @ [ScopeExit, LocalExit, ExitContext]
          @ (if upgrade f then [WriteResult EXIT_SUCCESS, Log INFO ''database upgrade passed'']
             else [])
          @ [Log TRACE ''finished database init/upgrade'']) \<and>
   (\<forall>w'. upgradeDatabase f e w = Exited w' \<longrightarrow>
      ExitContext \<notin> set (events_of w (upgradeDatabase f e w)))"
proof (intro conjI allI impI)
  fix w'
  assume r: "upgradeDatabase f e w = Returned w'"
  from upgradeDatabase_Returned(1) [OF r] r
  show "events_of w (upgradeDatabase f e w)
        = [Log TRACE ''starting database init/upgrade'', EnterContext (systemVocbase e) True 0,
           LocalEnter, ScopeEnter, Log DEBUG ''running database init/upgrade'']
          @ map (\<lambda>p. UpgradeDatabase (snd p) True) (databases e)
          @ [ScopeExit, LocalExit, ExitContext]
          @ (if upgrade f then [WriteResult EXIT_SUCCESS, Log INFO ''database upgrade passed'']
             else [])
          @ [Log TRACE ''finished database init/upgrade'']"
    by (simp add: events_of_def enter_events_def leave_events_def)
next
  fix w'
  assume r: "upgradeDatabase f e w = Exited w'"
  from upgradeDatabase_Exited [OF r] obtain pre p post where
    "databases e = pre @ p # post" and "trace w' = trace w @ enter_events e @ map (\<lambda>p. UpgradeDatabase (snd p) True) pre
          @ fatal_events f (snd p) (globals w' ''UPGRADE_STARTED'' \<noteq> None)"
    by blast
  with r show "ExitContext \<notin> set (events_of w (upgradeDatabase f e w))"
    by (auto simp: events_of_def enter_events_def fatal_events_def split: if_splits)
qed

theorem sandbox_released_witness:
  "events_of world0
     (upgradeDatabase (sample_feature False True) (sample_env True [''_system''] script_succeeds)
        world0)
     = [Log TRACE ''starting database init/upgrade'', EnterContext (db ''_system'') True 0,
        LocalEnter, ScopeEnter, Log DEBUG ''running database init/upgrade'',
        UpgradeDatabase (db ''_system'') True,
        ScopeExit, LocalExit, ExitContext,
        Log TRACE ''finished database init/upgrade'']"
proof -
  have h: "upgradeDatabase (sample_feature False True)
             (sample_env True [''_system''] script_succeeds) world0
           = Returned (world_of (upgradeDatabase (sample_feature False True)
                                   (sample_env True [''_system''] script_succeeds) world0))"
    by (simp add: run_sweep_ok)
  from sandbox_released_when_sweep_returns
         [of "sample_feature False True" "sample_env True [''_system''] script_succeeds" world0] h
  have "events_of world0
     (upgradeDatabase (sample_feature False True) (sample_env True [''_system''] script_succeeds)
        world0)
     = [Log TRACE ''starting database init/upgrade'',
        EnterContext (systemVocbase (sample_env True [''_system''] script_succeeds)) True 0,
        LocalEnter, ScopeEnter, Log DEBUG ''running database init/upgrade'']
       @ map (\<lambda>p. UpgradeDatabase (snd p) True)
           (databases (sample_env True [''_system''] script_succeeds))
       @ [ScopeExit, LocalExit, ExitContext]
       @ (if upgrade (sample_feature False True)
          then [WriteResult EXIT_SUCCESS, Log INFO ''database upgrade passed''] else [])
       @ [Log TRACE ''finished database init/upgrade'']"
    by blast
  then show ?thesis by (simp add: sample_env_def sample_feature_def)
qed

text \<open>
  The claim as it stands fails: an upgrade of one database whose script sets the marker
  and fails ends the process inside the sandbox. The sandbox was entered, and the process
  exits with \<^verbatim>\<open>exitContext\<close> never called.
\<close>

theorem sandbox_not_released_counterexample:
  "upgradeDatabase (sample_feature True True) (sample_env True [''_system''] script_fails_started)
     world0
     = Exited
         \<lparr>trace =
            [Log TRACE ''starting database init/upgrade'', EnterContext (db ''_system'') True 0,
             LocalEnter, ScopeEnter, Log DEBUG ''running database init/upgrade'',
             UpgradeDatabase (db ''_system'') False, LocalExit,
             Log FATAL (msg_upgrade_failed ''_system'')],
          result = 1,
          globals = [''UPGRADE_ARGS'' \<mapsto> JSObject [(''upgrade'', JSBoolean True)],
                     ''UPGRADE_STARTED'' \<mapsto> JSBoolean True]\<rparr> \<and>
   EnterContext (db ''_system'') True 0
     \<in> set (trace (world_of (upgradeDatabase (sample_feature True True)
                                (sample_env True [''_system''] script_fails_started) world0))) \<and>
   ExitContext
     \<notin> set (trace (world_of (upgradeDatabase (sample_feature True True)
                                (sample_env True [''_system''] script_fails_started) world0)))"
  by (simp add: run_sweep_fail_started)

text \<open>
  C8. On a context that has a registered transaction, \<open>registerTransaction\<close> fails with
  the \<open>ContextState\<close> error and leaves the context as it was: the transaction registered
  first is still the current one.
\<close>

theorem register_twice_fails:
  assumes "currentTransaction c = Some t"
  shows "registerTransaction t' c = (Inl ContextState, c) \<and>
         getParentTransaction (snd (registerTransaction t' c)) = Some t"
  using assms by (simp add: registerTransaction_def getParentTransaction_def)

theorem register_twice_fails_witness:
  "registerTransaction 7 \<lparr>currentTransaction = None, embeddable = False\<rparr>
     = (Inr (), \<lparr>currentTransaction = Some 7, embeddable = False\<rparr>) \<and>
   registerTransaction 8 \<lparr>currentTransaction = Some 7, embeddable = False\<rparr>
     = (Inl ContextState, \<lparr>currentTransaction = Some 7, embeddable = False\<rparr>) \<and>
   getParentTransaction
     (snd (registerTransaction 8 \<lparr>currentTransaction = Some 7, embeddable = False\<rparr>)) = Some 7"
proof -
  have h: "currentTransaction \<lparr>currentTransaction = Some 7, embeddable = False\<rparr> = Some 7"
    by simp
  from register_twice_fails [OF h, of 8] show ?thesis
    by (simp add: registerTransaction_def)
qed

text \<open>
  C9. With upgrade-check = false in a process that passed the validation, upgrade is
  false as well, and \<open>start\<close> only opens the write-ahead log (ending the process if that
  fails): no maintenance procedure is invoked, the result output is neither written nor
  changed, and no shutdown is requested.
\<close>

theorem no_check_skips_sweep:
  assumes "\<not> upgradeCheck f" and "validateOptions f w0 = Returned w1"
  shows "\<not> upgrade f \<and>
         events_of w (start f e w)
           = [Log TRACE ''Upgrade::start'', WalOpen (wal_open e)]
               @ (if wal_open e then [] else [Log FATAL msg_wal]) \<and>
         invoked (events_of w (start f e w)) = [] \<and>
         result (world_of (start f e w)) = result w \<and>
         WriteResult x \<notin> set (events_of w (start f e w)) \<and>
         BeginShutdown \<notin> set (events_of w (start f e w))"
proof -
  from assms have u: "\<not> upgrade f"
    by (auto simp: validateOptions_def Let_def split: if_splits)
  with assms(1) show ?thesis
    by (simp add: start_def Let_def emit_def events_of_def)
qed

theorem no_check_skips_sweep_witness:
  "\<not> upgradeCheck (sample_feature False False) \<and>
   start (sample_feature False False) (sample_env True [''_system''] script_succeeds) world0
     = Returned \<lparr>trace = [Log TRACE ''Upgrade::start'', WalOpen True],
                 result = 1, globals = Map.empty\<rparr>"
proof -
  have h1: "\<not> upgradeCheck (sample_feature False False)"
    by (simp add: sample_feature_def)
  have h2: "validateOptions (sample_feature False False) world0
              = Returned (world_of (validateOptions (sample_feature False False) world0))"
    by (simp add: validateOptions_def sample_feature_def Let_def)
  from no_check_skips_sweep
         [OF h1 h2, of world0 "sample_env True [''_system''] script_succeeds" 0]
  have "\<not> upgrade (sample_feature False False)" by blast
  with h1 show ?thesis by (simp add: run_defs)
qed

text \<open>
  C10. The result output is written only by a run with upgrade = true whose sweep
  completed, and then with \<^verbatim>\<open>EXIT_SUCCESS\<close>; in every other run it keeps its value. In
  particular, with upgrade = false neither \<open>validateOptions\<close> nor \<open>start\<close> writes or changes
  it, whether the run returns or exits.
\<close>

theorem result_written_only_by_completed_upgrade:
  "(WriteResult x \<in> set (events_of w (start f e w)) \<longrightarrow>
      upgrade f \<and> x = EXIT_SUCCESS \<and> (\<exists>w'. start f e w = Returned w')) \<and>
   (result (world_of (start f e w)) \<noteq> result w \<longrightarrow>
      upgrade f \<and> (\<exists>w'. start f e w = Returned w' \<and> result w' = EXIT_SUCCESS)) \<and>
   (\<not> upgrade f \<longrightarrow>
      result (world_of (start f e w)) = result w \<and>
      WriteResult x \<notin> set (events_of w (start f e w)) \<and>
      result (world_of (validateOptions f w)) = result w \<and>
      WriteResult x \<notin> set (events_of w (validateOptions f w)))"
proof (cases "start f e w")
  case (Returned w')
  from start_Returned_events [OF Returned]
  have "WriteResult x \<in> set (events_of w (start f e w)) \<longrightarrow> upgrade f \<and> x = EXIT_SUCCESS"
    by (auto simp: start_events_def enter_events_def leave_events_def split: if_splits)
  moreover from start_Returned(3) [OF Returned] Returned
  have "result (world_of (start f e w)) \<noteq> result w \<longrightarrow> upgrade f \<and> result w' = EXIT_SUCCESS"
    by (auto split: if_splits)
  ultimately show ?thesis using Returned by (auto simp: validate_frame)
next
  case (Exited w')
  from start_Exited_events [OF Exited]
  have "WriteResult x \<notin> set (events_of w (start f e w))"
    by (auto simp: start_events_def enter_events_def fatal_events_def split: if_splits)
  moreover from start_Exited(1) [OF Exited] Exited
  have "result (world_of (start f e w)) = result w" by simp
  ultimately show ?thesis by (simp add: validate_frame)
qed

theorem result_written_witness:
  "WriteResult EXIT_SUCCESS
     \<in> set (events_of world0
              (start (sample_feature True True)
                 (sample_env True [''_system'', ''shop''] script_succeeds) world0)) \<and>
   upgrade (sample_feature True True) \<and>
   (\<exists>w'. start (sample_feature True True)
            (sample_env True [''_system'', ''shop''] script_succeeds) world0 = Returned w') \<and>
   result (world_of (start (sample_feature False True)
                       (sample_env True [''_system''] script_fails_started) world0))
     = result world0"
proof -
  have h1: "WriteResult EXIT_SUCCESS
     \<in> set (events_of world0
              (start (sample_feature True True)
                 (sample_env True [''_system'', ''shop''] script_succeeds) world0))"
    by (simp add: run_upgrade_ok events_of_def world0_simps)
  have h2: "\<not> upgrade (sample_feature False True)"
    by (simp add: sample_feature_def)
  from h1 result_written_only_by_completed_upgrade
         [of EXIT_SUCCESS world0 "sample_feature True True"
             "sample_env True [''_system'', ''shop''] script_succeeds"]
  have a: "upgrade (sample_feature True True) \<and>
     (\<exists>w'. start (sample_feature True True)
              (sample_env True [''_system'', ''shop''] script_succeeds) world0 = Returned w')"
    by blast
  from h2 result_written_only_by_completed_upgrade
         [of EXIT_SUCCESS world0 "sample_feature False True"
             "sample_env True [''_system''] script_fails_started"]
  have b: "result (world_of (start (sample_feature False True)
                       (sample_env True [''_system''] script_fails_started) world0))
     = result world0"
    by blast
  from h1 a b show ?thesis by blast
qed

end
